theory Spec2Isabelle
  imports Main "HOL-Library.Sublist"
begin

section \<open>Metrics status checker (metricsStatusChecker.js)\<close>

text \<open>
  A JavaScript string is modelled by the bytes of its UTF-8 encoding, as a \<open>string\<close>.
  The body of a response is decoded from UTF-8, so every body has such an encoding. The
  characters the code tells apart (line feed, space, \<open>#\<close>, the braces and the characters
  of the marker) are ASCII: each is one byte, and that byte occurs in no encoding of
  another character, so that splitting, counting and searching at these characters give
  the same on the bytes as on the string. The line separators U+2028 and U+2029, which
  the regular expression has to know, are the byte sequences \<open>E2 80 A8\<close> and
  \<open>E2 80 A9\<close>, and these sequences occur in an encoding only as these two characters.
  \<open>null\<close> and \<open>undefined\<close> are \<open>None\<close> where nothing else is said.
\<close>

subsection \<open>The endpoint catalogue\<close>

datatype metrics_dash_host = project | performanceContainer

record metric_endpoint =
  endpoint :: string
  hosting :: metrics_dash_host

definition metrics :: metric_endpoint where
  "metrics = \<lparr>endpoint = ''/metrics'', hosting = performanceContainer\<rparr>"

definition appmetricsDash :: metric_endpoint where
  "appmetricsDash = \<lparr>endpoint = ''/appmetrics-dash'', hosting = project\<rparr>"

definition javametricsDash :: metric_endpoint where
  "javametricsDash = \<lparr>endpoint = ''/javametrics-dash'', hosting = project\<rparr>"

definition swiftmetricsDash :: metric_endpoint where
  "swiftmetricsDash = \<lparr>endpoint = ''/swiftmetrics-dash'', hosting = project\<rparr>"

definition actuatorPrometheus :: metric_endpoint where
  "actuatorPrometheus = \<lparr>endpoint = ''/actuator/prometheus'', hosting = performanceContainer\<rparr>"

text \<open>\<open>Object.keys(VALID_METRIC_ENDPOINT)\<close> lists the entries in the order they are written.\<close>

definition VALID_METRIC_ENDPOINT :: "metric_endpoint list" where
  "VALID_METRIC_ENDPOINT =
     [metrics, appmetricsDash, javametricsDash, swiftmetricsDash, actuatorPrometheus]"

subsection \<open>String primitives\<close>

text \<open>\<open>s.includes(sub)\<close>: \<open>sub\<close> occurs somewhere in \<open>s\<close>.\<close>

fun includes_str :: "string \<Rightarrow> string \<Rightarrow> bool" where
  "includes_str [] sub = (sub = [])"
| "includes_str (c # cs) sub = (prefix sub (c # cs) \<or> includes_str cs sub)"

text \<open>
  \<open>s.split(sep)\<close> for a one-character separator: the pieces between the occurrences of
  the separator, empty pieces included, so that the result always has one element more
  than the string holds separators.
\<close>

fun split :: "char \<Rightarrow> string \<Rightarrow> string list" where
  "split sep [] = [] # []"
| "split sep (c # cs) =
     (if c = sep then [] # split sep cs
      else (case split sep cs of
              [] \<Rightarrow> [c] # []
            | piece # pieces \<Rightarrow> (c # piece) # pieces))"

text \<open>\<open>s.startsWith(searchString)\<close>.\<close>

definition startsWith :: "string \<Rightarrow> string \<Rightarrow> bool" where
  "startsWith s searchString = prefix searchString s"

text \<open>
  \<open>line.replace(/{.*}/, '')\<close>. The pattern has no flags: the dot matches every character
  except the four line terminators (line feed, carriage return, U+2028 and U+2029), the
  star is greedy, and only the leftmost match is replaced. At a given \<open>{\<close> the match
  therefore runs to the last \<open>}\<close> that can be reached without crossing a line
  terminator; when there is none, the search moves on to the next \<open>{\<close>.
\<close>

text \<open>A line terminator stands at the start of the string.\<close>

definition startsWithLineTerminator :: "string \<Rightarrow> bool" where
  "startsWithLineTerminator s =
     (prefix [CHR 0x0A] s \<or> prefix [CHR 0x0D] s
      \<or> prefix [CHR 0xE2, CHR 0x80, CHR 0xA8] s \<or> prefix [CHR 0xE2, CHR 0x80, CHR 0xA9] s)"

text \<open>What the greedy \<open>.*\<close> matches at the start of a string: all up to the first line terminator.\<close>

fun dotStar :: "string \<Rightarrow> string" where
  "dotStar [] = []"
| "dotStar (c # cs) = (if startsWithLineTerminator (c # cs) then [] else c # dotStar cs)"

text \<open>A line terminator stands somewhere in the string.\<close>

fun containsLineTerminator :: "string \<Rightarrow> bool" where
  "containsLineTerminator [] = False"
| "containsLineTerminator (c # cs) =
     (startsWithLineTerminator (c # cs) \<or> containsLineTerminator cs)"

text \<open>Index of the last \<open>}\<close> in a string.\<close>

fun lastClose :: "string \<Rightarrow> nat option" where
  "lastClose [] = None"
| "lastClose (c # cs) =
     (case lastClose cs of
        Some k \<Rightarrow> Some (Suc k)
      | None \<Rightarrow> if c = CHR ''}'' then Some 0 else None)"

fun replaceLabels :: "string \<Rightarrow> string" where
  "replaceLabels [] = []"
| "replaceLabels (c # cs) =
     (if c = CHR ''{'' then
        (case lastClose (dotStar cs) of
           Some k \<Rightarrow> drop (Suc k) cs
         | None \<Rightarrow> c # replaceLabels cs)
      else c # replaceLabels cs)"

subsection \<open>Format classifiers\<close>

definition isAppmetricsFormat :: "string \<Rightarrow> bool" where
  \<open>isAppmetricsFormat html = includes_str html ''src="graphmetrics/js''\<close>

text \<open>The predicate handed to \<open>lines.filter\<close>.\<close>

definition validLine :: "string \<Rightarrow> bool" where
  "validLine line =
     (let lineIsComment = startsWith line ''#'';
          validatedLine = replaceLabels line;
          validMetric = (int (length (split CHR '' '' validatedLine)) - 1 = 1)
      in lineIsComment \<or> validMetric)"

text \<open>
  \<open>if (lines[lines.length-1] === "") lines.pop()\<close>: reading index \<open>-1\<close> of an empty array
  gives \<open>undefined\<close>, which is not the empty string.
\<close>

definition popFinalEmpty :: "string list \<Rightarrow> string list" where
  "popFinalEmpty lines = (if lines \<noteq> [] \<and> last lines = [] then butlast lines else lines)"

definition isPrometheusFormat :: "string \<Rightarrow> bool" where
  "isPrometheusFormat string =
     (let lines = popFinalEmpty (split CHR 0x0A string);
          numberOfValidPrometheusLines = length (filter validLine lines)
      in length lines = numberOfValidPrometheusLines)"

subsection \<open>Probing one endpoint\<close>

text \<open>
  What \<open>asyncHttpRequest\<close> settles to: the promise is rejected (a request or response
  error; a timeout aborts the request, which raises such an error), or it resolves to a
  response with a status code and a body. The body starts as the empty string and grows
  by the received data, so it is always a string.
\<close>

datatype http_outcome = Rejected | Resolved nat string

fun isMetricsEndpoint :: "http_outcome \<Rightarrow> bool" where
  "isMetricsEndpoint Rejected = False"
| "isMetricsEndpoint (Resolved statusCode body) =
     (let validRes = (statusCode = 200) in
      if \<not> validRes \<or> body = [] then False
      else (let isAppmetrics = isAppmetricsFormat body;
                isPrometheus = isPrometheusFormat body
            in isAppmetrics \<or> isPrometheus))"

text \<open>
  \<open>getActiveMetricsURLs\<close>: every catalogue path is probed, and the results are gathered
  into an object keyed by path. The parameter \<open>request\<close> stands for the instance at
  the given host and port: what a GET of each path settles to.
\<close>

definition getActiveMetricsURLs :: "(string \<Rightarrow> http_outcome) \<Rightarrow> (string \<rightharpoonup> bool)" where
  "getActiveMetricsURLs request =
     (let endpointsToCheck = map endpoint VALID_METRIC_ENDPOINT;
          endpoints = map (\<lambda>e. (e, isMetricsEndpoint (request e))) endpointsToCheck
      in foldl (\<lambda>acc (e, isActive). acc(e \<mapsto> isActive)) Map.empty endpoints)"

subsection \<open>Resolving the dashboard\<close>

definition getDashboardPath ::
  "metrics_dash_host option \<Rightarrow> string \<Rightarrow> string \<Rightarrow> string \<Rightarrow> string option" where
  "getDashboardPath metricsDashHost projectMetricEndpoint projectID language =
     (if metricsDashHost = Some project then Some (projectMetricEndpoint @ ''/?theme=dark'')
      else if language \<in> set [''java'', ''nodejs''] \<and> metricsDashHost = Some performanceContainer
        then Some (''/performance/monitor/dashboard/'' @ language @ ''?theme=dark&projectID='' @ projectID)
      else None)"

record dashboard =
  dash_hosting :: "metrics_dash_host option"
  dash_path :: "string option"

definition prioritisedReturnOrder :: "metric_endpoint list" where
  "prioritisedReturnOrder = [metrics, appmetricsDash, javametricsDash, swiftmetricsDash]"

text \<open>The predicate handed to \<open>prioritisedReturnOrder.find\<close>.\<close>

definition eligible :: "(string \<rightharpoonup> bool) \<Rightarrow> string \<Rightarrow> metric_endpoint \<Rightarrow> bool" where
  "eligible endpoints projectLanguage e =
     (if endpoint e = endpoint metrics \<and> projectLanguage \<noteq> ''java'' then False
      else endpoints (endpoint e) = Some True)"

text \<open>The body of \<open>getMetricsDashboardHostAndPath\<close> after the capability map has arrived.\<close>

definition resolve :: "(string \<rightharpoonup> bool) \<Rightarrow> string \<Rightarrow> string \<Rightarrow> dashboard" where
  "resolve endpoints projectID projectLanguage =
     (case List.find (eligible endpoints projectLanguage) prioritisedReturnOrder of
        None \<Rightarrow> \<lparr>dash_hosting = None, dash_path = None\<rparr>
      | Some dashboardObject \<Rightarrow>
          \<lparr>dash_hosting = Some (hosting dashboardObject),
           dash_path = getDashboardPath (Some (hosting dashboardObject))
                         (endpoint dashboardObject) projectID projectLanguage\<rparr>)"

definition getMetricsDashboardHostAndPath ::
  "(string \<Rightarrow> http_outcome) \<Rightarrow> string \<Rightarrow> string \<Rightarrow> dashboard" where
  "getMetricsDashboardHostAndPath request projectID projectLanguage =
     resolve (getActiveMetricsURLs request) projectID projectLanguage"


subsection \<open>The wording of the specification, for comparison\<close>

text \<open>
  The specification describes a valid line through whitespace-separated tokens, and the
  removal of the label block as running from the first \<open>{\<close> to the first following
  \<open>}\<close>. The three definitions below follow these words, not the code; they serve
  only to compare the code with them. Whitespace is taken to be the ASCII whitespace
  characters.
\<close>

definition isWhitespace :: "char \<Rightarrow> bool" where
  "isWhitespace c = (c \<in> set [CHR '' '', CHR 0x09, CHR 0x0A, CHR 0x0B, CHR 0x0C, CHR 0x0D])"

fun spec_pieces :: "string \<Rightarrow> string list" where
  "spec_pieces [] = [] # []"
| "spec_pieces (c # cs) =
     (if isWhitespace c then [] # spec_pieces cs
      else (case spec_pieces cs of
              [] \<Rightarrow> [c] # []
            | piece # pieces \<Rightarrow> (c # piece) # pieces))"

text \<open>The whitespace-separated tokens of a string: its maximal runs of other characters.\<close>

definition spec_tokens :: "string \<Rightarrow> string list" where
  "spec_tokens s = filter (\<lambda>piece. piece \<noteq> []) (spec_pieces s)"

definition spec_validLine :: "string \<Rightarrow> bool" where
  "spec_validLine line = (startsWith line ''#'' \<or> length (spec_tokens (replaceLabels line)) = 2)"

definition spec_isPrometheusFormat :: "string \<Rightarrow> bool" where
  "spec_isPrometheusFormat body = list_all spec_validLine (popFinalEmpty (split CHR 0x0A body))"

text \<open>Removal of the span from the first \<open>{\<close> to the first \<open>}\<close> after it.\<close>

fun spec_replaceFirstToFirst :: "string \<Rightarrow> string" where
  "spec_replaceFirstToFirst [] = []"
| "spec_replaceFirstToFirst (c # cs) =
     (if c = CHR ''{'' then
        (if CHR ''}'' \<in> set cs then tl (dropWhile (\<lambda>x. x \<noteq> CHR ''}'') cs) else c # cs)
      else c # spec_replaceFirstToFirst cs)"

section \<open>Performance server (server.js)\<close>

subsection \<open>State\<close>

text \<open>
  The body of a request as far as the routes read it: the project id, used as the key
  of the registry, and the target URL, which may be missing.
\<close>

record load_options =
  req_projectID :: string
  req_url :: "string option"

text \<open>\<open>!req.body.url\<close> holds for a missing URL and for the empty string.\<close>

definition falsy :: "string option \<Rightarrow> bool" where
  "falsy v = (v = None \<or> v = Some [])"

text \<open>
  Every call of \<open>runLoad\<close> creates its own variables \<open>output\<close> and \<open>errOutput\<close>, which the
  handlers of the spawned child share with the \<open>options\<close> of the call.
\<close>

record load_run =
  run_options :: load_options
  "output" :: string
  errOutput :: string

datatype signal = SignalNumber int | SignalName string

datatype io_event =
    starting string
  | started string
  | cancelled string
  | loadrunError string string string
  | completed string string

text \<open>
  \<open>loadrunError output error projectID\<close> and \<open>completed output projectID\<close> carry their
  fields in the order the code writes them.
\<close>

text \<open>
  \<open>res.sendStatus(code)\<close>, \<open>res.status(code).send(text)\<close> and, in the \<open>catch\<close> branch of a
  route, \<open>res.status(code).send(err)\<close>.
\<close>

datatype response = sendStatus nat | statusSend nat string | statusSendErr nat

text \<open>
  What reading \<open>loadProcess[key]\<close> gives. The registry is a plain object, so a key that
  was never assigned reads as \<open>undefined\<close>, unless it names a member that every object
  inherits from \<open>Object.prototype\<close>: then it reads as that member, a function (or, for
  \<open>__proto__\<close>, the prototype itself), which is truthy and has no method \<open>kill\<close>.
\<close>

datatype registry_value = Undefined | Null | ChildProcess nat | InheritedMember

definition truthy :: "registry_value \<Rightarrow> bool" where
  "truthy v = (v \<noteq> Undefined \<and> v \<noteq> Null)"

definition objectPrototypeMembers :: "string list" where
  "objectPrototypeMembers =
     [''constructor'', ''__defineGetter__'', ''__defineSetter__'', ''hasOwnProperty'',
      ''__lookupGetter__'', ''__lookupSetter__'', ''isPrototypeOf'', ''propertyIsEnumerable'',
      ''toString'', ''valueOf'', ''__proto__'', ''toLocaleString'']"

text \<open>
  The server: the registry \<open>loadProcess\<close> (what reading each key gives), the variables
  of every call of \<open>runLoad\<close> by child handle, the events emitted on the socket so far,
  and the signals sent. Child handles are numbered in the order they are spawned. The
  field \<open>running\<close> belongs to the operating system rather than to the server: the
  children that were spawned and have not terminated yet.

  An assignment \<open>loadProcess[key] = value\<close> makes the key read as the value. For the key
  \<open>__proto__\<close> the assignment would replace the prototype of the registry instead; the
  event loop never makes this assignment, since the start route refuses every key that
  reads as an inherited member and only the start route brings in new keys (lemma
  \<open>inherited_members_stay\<close> below).
\<close>

record server =
  loadProcess :: "string \<Rightarrow> registry_value"
  closures :: "nat \<rightharpoonup> load_run"
  spawned :: nat
  running :: "nat set"
  kills :: "nat list"
  emitted :: "io_event list"

definition initial :: server where
  "initial =
     \<lparr>loadProcess = (\<lambda>k. if k \<in> set objectPrototypeMembers then InheritedMember else Undefined),
      closures = Map.empty, spawned = 0, running = {}, kills = [], emitted = []\<rparr>"

definition io_emit :: "io_event \<Rightarrow> server \<Rightarrow> server" where
  "io_emit e s = s\<lparr>emitted := emitted s @ [e]\<rparr>"

subsection \<open>Starting and cancelling\<close>

text \<open>
  \<open>childProcess.spawn\<close> returns a handle at once; a child that cannot be started is
  reported later through the \<open>error\<close> event of the handle.
\<close>

definition runLoad :: "load_options \<Rightarrow> server \<Rightarrow> server" where
  "runLoad options s =
     (let s1 = io_emit (starting (req_projectID options)) s;
          child = spawned s1;
          s2 = s1\<lparr>closures := (closures s1)(child \<mapsto>
                      \<lparr>run_options = options, output = [], errOutput = []\<rparr>),
                  spawned := Suc child,
                  running := insert child (running s1)\<rparr>;
          s3 = s2\<lparr>loadProcess := (loadProcess s2)(req_projectID options := ChildProcess child)\<rparr>
      in io_emit (started (req_projectID options)) s3)"

text \<open>\<open>app.post('/api/v1/runload')\<close>.\<close>

definition runload_route :: "load_options \<Rightarrow> server \<Rightarrow> response \<times> server" where
  "runload_route body s =
     (if \<not> truthy (loadProcess s (req_projectID body)) then
        (if falsy (req_url body) then (sendStatus 500, s)
         else (sendStatus 202, runLoad body s))
      else (statusSend 409 ''A load run is already in progress'', s))"

text \<open>
  \<open>app.post('/api/v1/cancelLoad')\<close>. Calling \<open>kill\<close> on an inherited member throws a
  \<open>TypeError\<close>, which the \<open>catch\<close> branch of the route answers with the status 500.
\<close>

definition cancelLoad_route :: "load_options \<Rightarrow> server \<Rightarrow> response \<times> server" where
  "cancelLoad_route body s =
     (case loadProcess s (req_projectID body) of
        ChildProcess child \<Rightarrow> (sendStatus 200, s\<lparr>kills := kills s @ [child]\<rparr>)
      | InheritedMember \<Rightarrow> (statusSendErr 500, s)
      | Undefined \<Rightarrow> (statusSend 409 ''No run in progress'', s)
      | Null \<Rightarrow> (statusSend 409 ''No run in progress'', s))"

subsection \<open>The handlers of a child\<close>

definition on_stdout_data :: "nat \<Rightarrow> string \<Rightarrow> server \<Rightarrow> server" where
  "on_stdout_data child data s =
     (case closures s child of
        None \<Rightarrow> s
      | Some run \<Rightarrow> s\<lparr>closures := (closures s)(child \<mapsto> run\<lparr>output := output run @ data\<rparr>)\<rparr>)"

definition on_stderr_data :: "nat \<Rightarrow> string \<Rightarrow> server \<Rightarrow> server" where
  "on_stderr_data child data s =
     (case closures s child of
        None \<Rightarrow> s
      | Some run \<Rightarrow> s\<lparr>closures := (closures s)(child \<mapsto> run\<lparr>errOutput := errOutput run @ data\<rparr>)\<rparr>)"

text \<open>
  The \<open>exit\<close> handler receives the exit code (null when a signal ended the child) and
  the signal (null when the child exited by itself). \<open>code != 0\<close> holds for null.
\<close>

definition on_exit :: "nat \<Rightarrow> int option \<Rightarrow> signal option \<Rightarrow> server \<Rightarrow> server" where
  "on_exit child code sig s =
     (case closures s child of
        None \<Rightarrow> s
      | Some run \<Rightarrow>
          (let key = req_projectID (run_options run);
               s1 = s\<lparr>loadProcess := (loadProcess s)(key := Null)\<rparr>
           in if sig = Some (SignalNumber 9) \<or> sig = Some (SignalName ''SIGKILL'')
                then io_emit (cancelled key) s1
              else if code \<noteq> Some 0
                then io_emit (loadrunError (output run) (errOutput run) key) s1
              else io_emit (completed (output run) key) s1))"

definition on_error :: "nat \<Rightarrow> server \<Rightarrow> server" where
  "on_error child s =
     (case closures s child of
        None \<Rightarrow> s
      | Some run \<Rightarrow>
          (let key = req_projectID (run_options run);
               s1 = s\<lparr>loadProcess := (loadProcess s)(key := Null)\<rparr>
           in io_emit (loadrunError (output run) (errOutput run) key) s1))"

subsection \<open>The event loop\<close>

text \<open>
  What reaches the server, one at a time: a request to start or to cancel, data of a
  child, and the end of a child, which is either its exit or the error of a child that
  could not be started. Only a running child ends, and it ends once.
\<close>

datatype action =
    StartRequest load_options
  | CancelRequest load_options
  | StdoutData nat string
  | StderrData nat string
  | Exit nat "int option" "signal option"
  | Error nat

fun deliver :: "action \<Rightarrow> server \<Rightarrow> server" where
  "deliver (StartRequest body) s = snd (runload_route body s)"
| "deliver (CancelRequest body) s = snd (cancelLoad_route body s)"
| "deliver (StdoutData child data) s = on_stdout_data child data s"
| "deliver (StderrData child data) s = on_stderr_data child data s"
| "deliver (Exit child code sig) s =
     (if child \<in> running s then (on_exit child code sig s)\<lparr>running := running s - {child}\<rparr>
      else s)"
| "deliver (Error child) s =
     (if child \<in> running s then (on_error child s)\<lparr>running := running s - {child}\<rparr>
      else s)"

definition run_trace :: "action list \<Rightarrow> server \<Rightarrow> server" where
  "run_trace actions s = foldl (\<lambda>s a. deliver a s) s actions"

text \<open>The key a child was started for.\<close>

definition key_of :: "server \<Rightarrow> nat \<Rightarrow> string option" where
  "key_of s child = map_option (\<lambda>run. req_projectID (run_options run)) (closures s child)"

text \<open>The events that end a run.\<close>

fun terminal :: "io_event \<Rightarrow> bool" where
  "terminal (starting k) = False"
| "terminal (started k) = False"
| "terminal (cancelled k) = True"
| "terminal (loadrunError out err k) = True"
| "terminal (completed out k) = True"

text \<open>A status code of the client-error class.\<close>

fun clientError :: "response \<Rightarrow> bool" where
  "clientError (sendStatus code) = (400 \<le> code \<and> code < 500)"
| "clientError (statusSend code text) = (400 \<le> code \<and> code < 500)"
| "clientError (statusSendErr code) = (400 \<le> code \<and> code < 500)"

text \<open>
  The invariant of the event loop. Every child in the registry is a running child that
  was started for this key; every running child is the entry of its key; the handles of
  the running children have been handed out; every child that has ended has emitted one
  terminal event; and the keys that name an inherited member still read as that member.
\<close>

definition registry_inv :: "server \<Rightarrow> bool" where
  "registry_inv s =
     ((\<forall>k child. loadProcess s k = ChildProcess child \<longrightarrow>
          child \<in> running s \<and> key_of s child = Some k)
      \<and> (\<forall>child \<in> running s. \<exists>k. key_of s child = Some k \<and> loadProcess s k = ChildProcess child)
      \<and> (\<forall>child \<in> running s. child < spawned s)
      \<and> finite (running s)
      \<and> length (filter terminal (emitted s)) + card (running s) = spawned s
      \<and> (\<forall>k \<in> set objectPrototypeMembers. loadProcess s k = InheritedMember))"

section \<open>Properties of the resolver and the prober\<close>

lemma find_prioritised:
  "List.find (eligible endpoints projectLanguage) prioritisedReturnOrder =
     (if projectLanguage = ''java'' \<and> endpoints ''/metrics'' = Some True then Some metrics
      else if endpoints ''/appmetrics-dash'' = Some True then Some appmetricsDash
      else if endpoints ''/javametrics-dash'' = Some True then Some javametricsDash
      else if endpoints ''/swiftmetrics-dash'' = Some True then Some swiftmetricsDash
      else None)"
  by (simp add: prioritisedReturnOrder_def eligible_def metrics_def appmetricsDash_def
      javametricsDash_def swiftmetricsDash_def)

text \<open>
  Claim C1. For every capability map and every language, the resolver walks the fixed
  priority list and answers with the first eligible entry: \<open>/metrics\<close> wins only for the
  language java; otherwise \<open>/appmetrics-dash\<close>, \<open>/javametrics-dash\<close> and
  \<open>/swiftmetrics-dash\<close> are tried in this order; for a language other than java the
  \<open>/metrics\<close> entry is never selected, whatever its capability; when nothing matches, the
  result is the value with hosting and path both null.
\<close>

theorem resolve_priority:
  "resolve endpoints projectID projectLanguage =
     (if projectLanguage = ''java'' \<and> endpoints ''/metrics'' = Some True then
        \<lparr>dash_hosting = Some performanceContainer,
         dash_path = getDashboardPath (Some performanceContainer) ''/metrics'' projectID projectLanguage\<rparr>
      else if endpoints ''/appmetrics-dash'' = Some True then
        \<lparr>dash_hosting = Some project,
         dash_path = getDashboardPath (Some project) ''/appmetrics-dash'' projectID projectLanguage\<rparr>
      else if endpoints ''/javametrics-dash'' = Some True then
        \<lparr>dash_hosting = Some project,
         dash_path = getDashboardPath (Some project) ''/javametrics-dash'' projectID projectLanguage\<rparr>
      else if endpoints ''/swiftmetrics-dash'' = Some True then
        \<lparr>dash_hosting = Some project,
         dash_path = getDashboardPath (Some project) ''/swiftmetrics-dash'' projectID projectLanguage\<rparr>
      else \<lparr>dash_hosting = None, dash_path = None\<rparr>)
   \<and> (projectLanguage \<noteq> ''java'' \<longrightarrow>
        resolve endpoints projectID projectLanguage =
        resolve (endpoints(''/metrics'' := None)) projectID projectLanguage)"
proof -
  have sel: "List.find (eligible (endpoints(''/metrics'' := None)) projectLanguage) prioritisedReturnOrder =
             List.find (eligible endpoints projectLanguage) prioritisedReturnOrder"
    if "projectLanguage \<noteq> ''java''"
    using that by (simp add: find_prioritised)
  show ?thesis
    unfolding resolve_def
    by (simp add: sel find_prioritised metrics_def appmetricsDash_def javametricsDash_def
        swiftmetricsDash_def)
qed

theorem resolve_priority_witness:
  "resolve [''/metrics'' \<mapsto> True, ''/appmetrics-dash'' \<mapsto> True] ''p1'' ''java'' =
     \<lparr>dash_hosting = Some performanceContainer,
      dash_path = Some ''/performance/monitor/dashboard/java?theme=dark&projectID=p1''\<rparr>
   \<and> resolve [''/metrics'' \<mapsto> True, ''/appmetrics-dash'' \<mapsto> True] ''p1'' ''nodejs'' =
     \<lparr>dash_hosting = Some project, dash_path = Some ''/appmetrics-dash/?theme=dark''\<rparr>
   \<and> ''nodejs'' \<noteq> ''java''
   \<and> resolve [''/metrics'' \<mapsto> True] ''p1'' ''nodejs'' = \<lparr>dash_hosting = None, dash_path = None\<rparr>"
  using resolve_priority [of "[''/metrics'' \<mapsto> True, ''/appmetrics-dash'' \<mapsto> True]" "''p1''" "''java''"]
    resolve_priority [of "[''/metrics'' \<mapsto> True, ''/appmetrics-dash'' \<mapsto> True]" "''p1''" "''nodejs''"]
    resolve_priority [of "[''/metrics'' \<mapsto> True]" "''p1''" "''nodejs''"]
  by (simp add: getDashboardPath_def)

text \<open>
  Claim C10. For every capability map and every language, the target returned by the
  resolver has a null path exactly when it has a null hosting: the only entry of the
  priority list hosted by the performance container is \<open>/metrics\<close>, which is selected
  for java only, and java has a path there.
\<close>

theorem resolve_path_null_iff_hosting_null:
  "(dash_path (resolve endpoints projectID projectLanguage) = None) =
   (dash_hosting (resolve endpoints projectID projectLanguage) = None)
   \<and> (dash_path (getMetricsDashboardHostAndPath request projectID projectLanguage) = None) =
     (dash_hosting (getMetricsDashboardHostAndPath request projectID projectLanguage) = None)"
  unfolding getMetricsDashboardHostAndPath_def resolve_def
  by (simp add: find_prioritised getDashboardPath_def metrics_def appmetricsDash_def
      javametricsDash_def swiftmetricsDash_def)

theorem resolve_path_null_iff_hosting_null_witness:
  "dash_path (resolve [''/metrics'' \<mapsto> True] ''p1'' ''swift'') = None
   \<and> dash_hosting (resolve [''/metrics'' \<mapsto> True] ''p1'' ''swift'') = None"
  using resolve_path_null_iff_hosting_null [of "[''/metrics'' \<mapsto> True]" "''p1''" "''swift''" "\<lambda>p. Rejected"]
  by (simp add: resolve_def find_prioritised)


text \<open>
  Claim C8, as the code has it. Hosting by the project gives the path
  \<open><endpoint>/?theme=dark\<close>. Hosting by the performance container gives
  \<open>/performance/monitor/dashboard/<language>?theme=dark&projectID=<id>\<close> when the language
  is java or nodejs, and null for every other language.
\<close>

theorem getDashboardPath_cases:
  "getDashboardPath (Some project) projectMetricEndpoint projectID language =
     Some (projectMetricEndpoint @ ''/?theme=dark'')
   \<and> (language = ''java'' \<or> language = ''nodejs'' \<longrightarrow>
        getDashboardPath (Some performanceContainer) projectMetricEndpoint projectID language =
          Some (''/performance/monitor/dashboard/'' @ language @ ''?theme=dark&projectID='' @ projectID))
   \<and> (language \<noteq> ''java'' \<and> language \<noteq> ''nodejs'' \<longrightarrow>
        getDashboardPath (Some performanceContainer) projectMetricEndpoint projectID language = None)"
  by (simp add: getDashboardPath_def)

theorem getDashboardPath_cases_witness:
  "getDashboardPath (Some project) ''/appmetrics-dash'' ''p1'' ''nodejs'' =
     Some ''/appmetrics-dash/?theme=dark''
   \<and> getDashboardPath (Some performanceContainer) ''/metrics'' ''p1'' ''nodejs'' =
     Some ''/performance/monitor/dashboard/nodejs?theme=dark&projectID=p1''
   \<and> (''swift'' \<noteq> ''java'' \<and> ''swift'' \<noteq> ''nodejs'')
   \<and> getDashboardPath (Some performanceContainer) ''/metrics'' ''p1'' ''swift'' = None"
  using getDashboardPath_cases [of "''/appmetrics-dash''" "''p1''" "''nodejs''"]
    getDashboardPath_cases [of "''/metrics''" "''p1''" "''nodejs''"]
    getDashboardPath_cases [of "''/metrics''" "''p1''" "''swift''"]
  by simp

text \<open>
  The path the claim C8 gives for the performance container,
  \<open>/monitor/dashboard/<language>?theme=dark&runID=<id>\<close>, is not the one the code builds.
\<close>

theorem getDashboardPath_counterexample:
  "getDashboardPath (Some performanceContainer) ''/metrics'' ''p1'' ''java'' \<noteq>
     Some (''/monitor/dashboard/'' @ ''java'' @ ''?theme=dark&runID='' @ ''p1'')"
  by (simp add: getDashboardPath_def)

lemma getActiveMetricsURLs_metrics:
  "getActiveMetricsURLs request ''/metrics'' = Some (isMetricsEndpoint (request ''/metrics''))"
  by (simp add: getActiveMetricsURLs_def VALID_METRIC_ENDPOINT_def metrics_def
      appmetricsDash_def javametricsDash_def swiftmetricsDash_def actuatorPrometheus_def)

lemma getActiveMetricsURLs_appmetricsDash:
  "getActiveMetricsURLs request ''/appmetrics-dash'' =
     Some (isMetricsEndpoint (request ''/appmetrics-dash''))"
  by (simp add: getActiveMetricsURLs_def VALID_METRIC_ENDPOINT_def metrics_def
      appmetricsDash_def javametricsDash_def swiftmetricsDash_def actuatorPrometheus_def)

lemma getActiveMetricsURLs_javametricsDash:
  "getActiveMetricsURLs request ''/javametrics-dash'' =
     Some (isMetricsEndpoint (request ''/javametrics-dash''))"
  by (simp add: getActiveMetricsURLs_def VALID_METRIC_ENDPOINT_def metrics_def
      appmetricsDash_def javametricsDash_def swiftmetricsDash_def actuatorPrometheus_def)

lemma getActiveMetricsURLs_swiftmetricsDash:
  "getActiveMetricsURLs request ''/swiftmetrics-dash'' =
     Some (isMetricsEndpoint (request ''/swiftmetrics-dash''))"
  by (simp add: getActiveMetricsURLs_def VALID_METRIC_ENDPOINT_def metrics_def
      appmetricsDash_def javametricsDash_def swiftmetricsDash_def actuatorPrometheus_def)

lemma getActiveMetricsURLs_actuatorPrometheus:
  "getActiveMetricsURLs request ''/actuator/prometheus'' =
     Some (isMetricsEndpoint (request ''/actuator/prometheus''))"
  by (simp add: getActiveMetricsURLs_def VALID_METRIC_ENDPOINT_def metrics_def
      appmetricsDash_def javametricsDash_def swiftmetricsDash_def actuatorPrometheus_def)

lemma getActiveMetricsURLs_catalogue:
  assumes "e \<in> set VALID_METRIC_ENDPOINT"
  shows "getActiveMetricsURLs request (endpoint e) = Some (isMetricsEndpoint (request (endpoint e)))"
proof -
  from assms consider "e = metrics" | "e = appmetricsDash" | "e = javametricsDash"
    | "e = swiftmetricsDash" | "e = actuatorPrometheus"
    by (auto simp: VALID_METRIC_ENDPOINT_def)
  then show ?thesis
  proof cases
    case 1
    then show ?thesis by (simp add: metrics_def getActiveMetricsURLs_metrics)
  next
    case 2
    then show ?thesis by (simp add: appmetricsDash_def getActiveMetricsURLs_appmetricsDash)
  next
    case 3
    then show ?thesis by (simp add: javametricsDash_def getActiveMetricsURLs_javametricsDash)
  next
    case 4
    then show ?thesis by (simp add: swiftmetricsDash_def getActiveMetricsURLs_swiftmetricsDash)
  next
    case 5
    then show ?thesis by (simp add: actuatorPrometheus_def getActiveMetricsURLs_actuatorPrometheus)
  qed
qed

text \<open>
  Claim C6. The probe of an endpoint answers false when the request is rejected (an
  error or a timeout), when the status code is not 200 and when the body is empty; it
  returns a value in each of these cases. Otherwise it answers true exactly when one of
  the two classifiers accepts the body. The capability map holds this answer for every
  path of the catalogue, whatever the other probes gave.
\<close>

theorem isMetricsEndpoint_fail_closed:
  "isMetricsEndpoint Rejected = False
   \<and> (statusCode \<noteq> 200 \<longrightarrow> isMetricsEndpoint (Resolved statusCode body) = False)
   \<and> isMetricsEndpoint (Resolved statusCode []) = False
   \<and> (statusCode = 200 \<and> body \<noteq> [] \<longrightarrow>
        isMetricsEndpoint (Resolved statusCode body) =
          (isAppmetricsFormat body \<or> isPrometheusFormat body))
   \<and> (\<forall>e \<in> set VALID_METRIC_ENDPOINT.
        getActiveMetricsURLs request (endpoint e) =
          Some (isMetricsEndpoint (request (endpoint e))))"
  by (simp add: getActiveMetricsURLs_catalogue)

theorem isMetricsEndpoint_fail_closed_witness:
  "(404::nat) \<noteq> 200 \<and> isMetricsEndpoint (Resolved 404 ''up 1'') = False
   \<and> ((200::nat) = 200 \<and> ''up 1'' \<noteq> []) \<and> isMetricsEndpoint (Resolved 200 ''up 1'') = True
   \<and> metrics \<in> set VALID_METRIC_ENDPOINT
   \<and> getActiveMetricsURLs (\<lambda>p. if p = ''/metrics'' then Resolved 200 ''up 1'' else Rejected)
        ''/metrics'' = Some True"
  using isMetricsEndpoint_fail_closed [of 404 "''up 1''" "\<lambda>p. if p = ''/metrics'' then Resolved 200 ''up 1'' else Rejected"]
    isMetricsEndpoint_fail_closed [of 200 "''up 1''" "\<lambda>p. if p = ''/metrics'' then Resolved 200 ''up 1'' else Rejected"]
  by (simp add: VALID_METRIC_ENDPOINT_def metrics_def isPrometheusFormat_def popFinalEmpty_def
      validLine_def startsWith_def)

section \<open>Properties of the classifiers\<close>

lemma includes_str_sublist: "includes_str s sub = sublist sub s"
  by (induction s) (simp_all add: sublist_Cons_right)

lemma split_not_Nil: "split sep s \<noteq> []"
  by (induction s) (auto split: list.splits)

lemma length_split: "length (split sep s) = Suc (count_list s sep)"
  by (induction s) (auto split: list.splits simp: split_not_Nil)

lemma filter_length_all: "(length xs = length (filter P xs)) = (\<forall>x \<in> set xs. P x)"
proof (induction xs)
  case Nil
  then show ?case by simp
next
  case (Cons x xs)
  have "length (filter P xs) \<le> length xs" by simp
  then have "Suc (length xs) \<noteq> length (filter P xs)" by arith
  with Cons show ?case by auto
qed

lemma validLine_iff:
  "validLine line = (startsWith line ''#'' \<or> count_list (replaceLabels line) CHR '' '' = 1)"
  by (auto simp: validLine_def length_split)

lemma isPrometheusFormat_iff:
  "isPrometheusFormat body = (\<forall>line \<in> set (popFinalEmpty (split CHR 0x0A body)). validLine line)"
  by (simp add: isPrometheusFormat_def filter_length_all)

lemma lastClose_None: "CHR ''}'' \<notin> set t \<Longrightarrow> lastClose t = None"
  by (induction t) auto

lemma lastClose_append: "CHR ''}'' \<notin> set t \<Longrightarrow> lastClose (m @ CHR ''}'' # t) = Some (length m)"
  by (induction m) (auto simp: lastClose_None)

lemma replaceLabels_no_open: "CHR ''{'' \<notin> set line \<Longrightarrow> replaceLabels line = line"
  by (induction line) auto

lemma dotStar_subset: "set (dotStar s) \<subseteq> set s"
  by (induction s) auto

lemma startsWithLineTerminator_append:
  assumes "\<not> startsWithLineTerminator (c # mid)"
  shows "\<not> startsWithLineTerminator (c # mid @ CHR ''}'' # post)"
proof (cases mid)
  case Nil
  with assms show ?thesis by (simp add: startsWithLineTerminator_def)
next
  case (Cons a as)
  show ?thesis
  proof (cases as)
    case Nil
    with Cons assms show ?thesis by (simp add: startsWithLineTerminator_def)
  next
    case (Cons b bs)
    with \<open>mid = a # as\<close> assms show ?thesis by (simp add: startsWithLineTerminator_def)
  qed
qed

lemma dotStar_through:
  "\<not> containsLineTerminator mid \<Longrightarrow>
   dotStar (mid @ CHR ''}'' # post) = mid @ CHR ''}'' # dotStar post"
proof (induction mid)
  case Nil
  have "\<not> startsWithLineTerminator (CHR ''}'' # post)"
    by (simp add: startsWithLineTerminator_def)
  then show ?case by simp
next
  case (Cons c mid)
  from Cons.prems have "\<not> startsWithLineTerminator (c # mid)" and "\<not> containsLineTerminator mid"
    by simp_all
  with Cons.IH startsWithLineTerminator_append [of c mid post] show ?case by simp
qed

lemma replaceLabels_span:
  assumes "CHR ''{'' \<notin> set pre" and "CHR ''}'' \<notin> set post"
    and "\<not> containsLineTerminator mid"
  shows "replaceLabels (pre @ CHR ''{'' # mid @ CHR ''}'' # post) = pre @ post"
  using assms(1)
proof (induction pre)
  case Nil
  have nc: "CHR ''}'' \<notin> set (dotStar post)"
    using assms(2) dotStar_subset by blast
  have "lastClose (mid @ CHR ''}'' # dotStar post) = Some (length mid)"
    by (rule lastClose_append [OF nc])
  then have "lastClose (dotStar (mid @ CHR ''}'' # post)) = Some (length mid)"
    by (simp only: dotStar_through [OF assms(3)])
  then show ?case by simp
next
  case (Cons a pre)
  then have "a \<noteq> CHR ''{''" and "CHR ''{'' \<notin> set pre" by auto
  with Cons.IH show ?case by simp
qed

lemma replaceLabels_unreachable:
  assumes "CHR ''{'' \<notin> set pre" and "CHR ''{'' \<notin> set rest"
    and "CHR ''}'' \<notin> set (dotStar rest)"
  shows "replaceLabels (pre @ CHR ''{'' # rest) = pre @ CHR ''{'' # rest"
  using assms(1)
proof (induction pre)
  case Nil
  have "lastClose (dotStar rest) = None"
    using assms(3) by (rule lastClose_None)
  then show ?case
    by (simp add: replaceLabels_no_open [OF assms(2)])
next
  case (Cons a pre)
  then have "a \<noteq> CHR ''{''" and "CHR ''{'' \<notin> set pre" by auto
  with Cons.IH show ?case by simp
qed

lemma whitespace_not_brace: "isWhitespace c \<Longrightarrow> c \<noteq> CHR ''{'' \<and> c \<noteq> CHR ''#''"
  by (auto simp: isWhitespace_def)

lemma whitespace_line:
  assumes "\<forall>c \<in> set line. isWhitespace c"
  shows "validLine line = (count_list line CHR '' '' = 1)"
proof -
  have "CHR ''{'' \<notin> set line"
    using assms whitespace_not_brace by blast
  then have r: "replaceLabels line = line"
    by (rule replaceLabels_no_open)
  have "\<not> startsWith line ''#''"
  proof (cases line)
    case Nil
    then show ?thesis by (simp add: startsWith_def)
  next
    case (Cons c cs)
    then have "isWhitespace c" using assms by simp
    then have "c \<noteq> CHR ''#''" using whitespace_not_brace by blast
    with Cons show ?thesis by (simp add: startsWith_def)
  qed
  then show ?thesis by (simp add: validLine_iff r)
qed

text \<open>
  Claim C3, as the code has it. For every body, the classifier answers true exactly when
  every line is valid, the lines being the pieces between the line feeds without a
  final empty piece. A line is valid exactly when it starts with \<open>#\<close> or what is left of
  it after the removal of the label block holds exactly one space character; this is the
  same as splitting into exactly two pieces at the space character, pieces that may be
  empty. The empty body is valid, the body of the two metrics \<open>foo_total\<close> and \<open>bar\<close> is
  valid, and \<open>foo bar baz\<close> is not.
\<close>

theorem isPrometheusFormat_lines:
  \<open>isPrometheusFormat body =
     (\<forall>line \<in> set (popFinalEmpty (split CHR 0x0A body)).
        startsWith line ''#'' \<or> count_list (replaceLabels line) CHR '' '' = 1)
   \<and> (count_list (replaceLabels line) CHR '' '' = 1) =
       (length (split CHR '' '' (replaceLabels line)) = 2)
   \<and> isPrometheusFormat []
   \<and> isPrometheusFormat ''foo_total 12\<newline>bar{label="x"} 3\<newline>''
   \<and> \<not> isPrometheusFormat ''foo bar baz\<newline>''\<close>
proof -
  have a: "isPrometheusFormat body =
     (\<forall>line \<in> set (popFinalEmpty (split CHR 0x0A body)).
        startsWith line ''#'' \<or> count_list (replaceLabels line) CHR '' '' = 1)"
    by (simp add: isPrometheusFormat_iff validLine_iff)
  have b: "(count_list (replaceLabels line) CHR '' '' = 1) =
       (length (split CHR '' '' (replaceLabels line)) = 2)"
    by (simp add: length_split)
  have c: "isPrometheusFormat []"
    by (simp add: isPrometheusFormat_def popFinalEmpty_def)
  have d: \<open>isPrometheusFormat ''foo_total 12\<newline>bar{label="x"} 3\<newline>''\<close>
    by (simp add: isPrometheusFormat_def popFinalEmpty_def validLine_def startsWith_def
        startsWithLineTerminator_def)
  have e: "\<not> isPrometheusFormat ''foo bar baz\<newline>''"
    by (simp add: isPrometheusFormat_def popFinalEmpty_def validLine_def startsWith_def
        startsWithLineTerminator_def)
  from a b c d e show ?thesis by blast
qed

theorem isPrometheusFormat_lines_witness:
  "isPrometheusFormat ''# HELP\<newline>up 1'' =
     (\<forall>line \<in> set [''# HELP'', ''up 1''].
        startsWith line ''#'' \<or> count_list (replaceLabels line) CHR '' '' = 1)
   \<and> isPrometheusFormat ''# HELP\<newline>up 1''"
  using isPrometheusFormat_lines [of "''# HELP\<newline>up 1''" "''up 1''"]
  by (simp add: popFinalEmpty_def startsWith_def)

text \<open>
  The claim C3 reads a valid line as one of exactly two whitespace-separated tokens. A
  line with a trailing space has one token and one space: the code accepts it.
\<close>

theorem isPrometheusFormat_tokens_counterexample:
  "isPrometheusFormat ''foo \<newline>'' \<and> \<not> spec_isPrometheusFormat ''foo \<newline>''"
  by (simp add: isPrometheusFormat_def spec_isPrometheusFormat_def popFinalEmpty_def
      validLine_def spec_validLine_def spec_tokens_def isWhitespace_def startsWith_def)

text \<open>
  Claim C7, as the code has it. The removal of the label block is a greedy match. When
  no line terminator (carriage return, U+2028, U+2029) lies between the first \<open>{\<close> of
  the line and its last \<open>}\<close>, it takes out the span from that first \<open>{\<close> to that last
  \<open>}\<close>: of a line with several brace groups, everything from the first opening brace
  to the last closing brace goes, the text between the groups included. A line without
  \<open>{\<close> is left as it is, and so is a line whose only \<open>{\<close> has no \<open>}\<close> after it before
  the next line terminator.
\<close>

theorem replaceLabels_first_to_last:
  "(CHR ''{'' \<notin> set pre \<and> CHR ''}'' \<notin> set post \<and> \<not> containsLineTerminator mid \<longrightarrow>
      replaceLabels (pre @ CHR ''{'' # mid @ CHR ''}'' # post) = pre @ post)
   \<and> (CHR ''{'' \<notin> set line \<longrightarrow> replaceLabels line = line)
   \<and> (CHR ''{'' \<notin> set pre \<and> CHR ''{'' \<notin> set rest \<and> CHR ''}'' \<notin> set (dotStar rest) \<longrightarrow>
      replaceLabels (pre @ CHR ''{'' # rest) = pre @ CHR ''{'' # rest)"
  using replaceLabels_span [of pre post mid] replaceLabels_no_open [of line]
    replaceLabels_unreachable [of pre rest]
  by blast

theorem replaceLabels_first_to_last_witness:
  "(CHR ''{'' \<notin> set ''a'' \<and> CHR ''}'' \<notin> set '' 1'' \<and> \<not> containsLineTerminator ''x} b {y'')
   \<and> replaceLabels ''a{x} b {y} 1'' = ''a 1''
   \<and> CHR ''{'' \<notin> set ''up 1'' \<and> replaceLabels ''up 1'' = ''up 1''
   \<and> (CHR ''{'' \<notin> set ''a'' \<and> CHR ''{'' \<notin> set (''x'' @ [CHR 0xE2, CHR 0x80, CHR 0xA8] @ '' } 1'')
       \<and> CHR ''}'' \<notin> set (dotStar (''x'' @ [CHR 0xE2, CHR 0x80, CHR 0xA8] @ '' } 1'')))
   \<and> replaceLabels (''a{x'' @ [CHR 0xE2, CHR 0x80, CHR 0xA8] @ '' } 1'') =
       ''a{x'' @ [CHR 0xE2, CHR 0x80, CHR 0xA8] @ '' } 1''"
  using replaceLabels_first_to_last [of "''a''" "'' 1''" "''x} b {y''" "''up 1''"
      "''x'' @ [CHR 0xE2, CHR 0x80, CHR 0xA8] @ '' } 1''"]
  by (simp add: startsWithLineTerminator_def)

text \<open>
  The claim C7 has the removal stop at the first \<open>}\<close> and keep the text between two
  brace groups. On a line with two groups the code removes that text too.
\<close>

theorem replaceLabels_counterexample:
  "replaceLabels ''a{x} b {y} 1'' \<noteq> spec_replaceFirstToFirst ''a{x} b {y} 1''"
  by (simp add: startsWithLineTerminator_def)

text \<open>
  Claim C9, as the code has it. A line of whitespace characters only is valid exactly
  when one of its characters, and no more, is the space character: the empty line, a tab
  and two spaces are invalid, a single space is valid. A body with an invalid line among
  its lines is invalid.
\<close>

theorem whitespace_only_line:
  "((\<forall>c \<in> set line. isWhitespace c) \<longrightarrow> validLine line = (count_list line CHR '' '' = 1))
   \<and> (l \<in> set (popFinalEmpty (split CHR 0x0A body)) \<and> \<not> validLine l \<longrightarrow> \<not> isPrometheusFormat body)"
  using whitespace_line [of line] isPrometheusFormat_iff [of body] by blast

theorem whitespace_only_line_witness:
  "list_all isWhitespace [CHR 0x09, CHR '' '', CHR '' '']
   \<and> \<not> validLine [CHR 0x09, CHR '' '', CHR '' '']
   \<and> [CHR 0x09, CHR '' '', CHR '' ''] \<in> set (popFinalEmpty (split CHR 0x0A (''up 1\<newline>'' @ [CHR 0x09, CHR '' '', CHR '' ''])))
   \<and> \<not> isPrometheusFormat (''up 1\<newline>'' @ [CHR 0x09, CHR '' '', CHR '' ''])"
  using whitespace_only_line [of "[CHR 0x09, CHR '' '', CHR '' '']" "[CHR 0x09, CHR '' '', CHR '' '']"
      "''up 1\<newline>'' @ [CHR 0x09, CHR '' '', CHR '' '']"]
  by (simp add: isWhitespace_def popFinalEmpty_def)

text \<open>
  The claim C9 has every line of whitespace only fail. The line of a single space passes.
\<close>

theorem whitespace_only_line_counterexample:
  "list_all isWhitespace '' '' \<and> validLine '' '' \<and> isPrometheusFormat '' ''"
  by (simp add: isPrometheusFormat_def popFinalEmpty_def validLine_def isWhitespace_def
      startsWith_def)

section \<open>Properties of the load-run orchestrator\<close>

lemma runLoad_fields:
  "loadProcess (runLoad body s) = (loadProcess s)(req_projectID body := ChildProcess (spawned s))"
  "closures (runLoad body s) =
     (closures s)(spawned s \<mapsto> \<lparr>run_options = body, output = [], errOutput = []\<rparr>)"
  "spawned (runLoad body s) = Suc (spawned s)"
  "running (runLoad body s) = insert (spawned s) (running s)"
  "kills (runLoad body s) = kills s"
  "emitted (runLoad body s) =
     emitted s @ [starting (req_projectID body), started (req_projectID body)]"
  by (simp_all add: runLoad_def io_emit_def Let_def)

lemma on_exit_fields:
  assumes "closures s child = Some run"
  shows "loadProcess (on_exit child code sig s) =
           (loadProcess s)(req_projectID (run_options run) := Null)"
    and "closures (on_exit child code sig s) = closures s"
    and "spawned (on_exit child code sig s) = spawned s"
    and "running (on_exit child code sig s) = running s"
    and "kills (on_exit child code sig s) = kills s"
    and "emitted (on_exit child code sig s) = emitted s @
           [if sig = Some (SignalNumber 9) \<or> sig = Some (SignalName ''SIGKILL'')
              then cancelled (req_projectID (run_options run))
            else if code \<noteq> Some 0
              then loadrunError (output run) (errOutput run) (req_projectID (run_options run))
            else completed (output run) (req_projectID (run_options run))]"
  using assms by (simp_all add: on_exit_def io_emit_def Let_def)

lemma on_error_fields:
  assumes "closures s child = Some run"
  shows "loadProcess (on_error child s) =
           (loadProcess s)(req_projectID (run_options run) := Null)"
    and "closures (on_error child s) = closures s"
    and "spawned (on_error child s) = spawned s"
    and "running (on_error child s) = running s"
    and "kills (on_error child s) = kills s"
    and "emitted (on_error child s) = emitted s @
           [loadrunError (output run) (errOutput run) (req_projectID (run_options run))]"
  using assms by (simp_all add: on_error_def io_emit_def Let_def)

lemma registry_invI:
  assumes "\<And>k child. loadProcess s k = ChildProcess child \<Longrightarrow>
             child \<in> running s \<and> key_of s child = Some k"
    and "\<And>child. child \<in> running s \<Longrightarrow>
             \<exists>k. key_of s child = Some k \<and> loadProcess s k = ChildProcess child"
    and "\<And>child. child \<in> running s \<Longrightarrow> child < spawned s"
    and "finite (running s)"
    and "length (filter terminal (emitted s)) + card (running s) = spawned s"
    and "\<And>k. k \<in> set objectPrototypeMembers \<Longrightarrow> loadProcess s k = InheritedMember"
  shows "registry_inv s"
  unfolding registry_inv_def using assms by blast

lemma inv_entry:
  "registry_inv s \<Longrightarrow> loadProcess s k = ChildProcess child \<Longrightarrow>
   child \<in> running s \<and> key_of s child = Some k"
  unfolding registry_inv_def by blast

lemma inv_running:
  "registry_inv s \<Longrightarrow> child \<in> running s \<Longrightarrow>
   \<exists>k. key_of s child = Some k \<and> loadProcess s k = ChildProcess child"
  unfolding registry_inv_def by blast

lemma inv_members:
  "registry_inv s \<Longrightarrow> k \<in> set objectPrototypeMembers \<Longrightarrow> loadProcess s k = InheritedMember"
  unfolding registry_inv_def by blast

lemma inv_handle: "registry_inv s \<Longrightarrow> child \<in> running s \<Longrightarrow> child < spawned s"
  unfolding registry_inv_def by blast

lemma inv_finite: "registry_inv s \<Longrightarrow> finite (running s)"
  unfolding registry_inv_def by blast

lemma inv_count:
  "registry_inv s \<Longrightarrow> length (filter terminal (emitted s)) + card (running s) = spawned s"
  unfolding registry_inv_def by blast

lemma exit_event_terminal:
  "terminal (if sig = Some (SignalNumber 9) \<or> sig = Some (SignalName ''SIGKILL'')
              then cancelled k
            else if code \<noteq> Some 0 then loadrunError out err k
            else completed out k)"
  by simp

lemma inv_initial: "registry_inv initial"
  by (simp add: registry_inv_def initial_def)

lemma initial_idle:
  "k \<notin> set objectPrototypeMembers \<Longrightarrow> \<not> truthy (loadProcess initial k)"
  by (simp add: initial_def truthy_def)

lemma inv_running_closure:
  assumes "registry_inv s" and "child \<in> running s"
  obtains run where "closures s child = Some run"
    and "loadProcess s (req_projectID (run_options run)) = ChildProcess child"
proof -
  from inv_running [OF assms] obtain k
    where k: "key_of s child = Some k" "loadProcess s k = ChildProcess child"
    by blast
  then obtain run where "closures s child = Some run" "k = req_projectID (run_options run)"
    by (auto simp: key_of_def)
  with k that show thesis by blast
qed

lemma inv_start:
  assumes inv: "registry_inv s" and idle: "\<not> truthy (loadProcess s (req_projectID body))"
  shows "registry_inv (runLoad body s)"
proof -
  let ?s' = "runLoad body s"
  let ?n = "spawned s"
  let ?k = "req_projectID body"
  have fresh: "?n \<notin> running s"
    using inv_handle [OF inv, of ?n] by auto
  have fin: "finite (running s)"
    using inv by (rule inv_finite)
  have key_new: "key_of ?s' ?n = Some ?k"
    by (simp add: key_of_def runLoad_fields)
  have key_old: "key_of ?s' c = key_of s c" if "c \<noteq> ?n" for c
    using that by (simp add: key_of_def runLoad_fields)
  have a: "child \<in> running ?s' \<and> key_of ?s' child = Some k"
    if h: "loadProcess ?s' k = ChildProcess child" for k child
  proof (cases "k = ?k")
    case True
    with h have "child = ?n" by (simp add: runLoad_fields)
    with True key_new show ?thesis by (simp add: runLoad_fields)
  next
    case False
    with h have old: "loadProcess s k = ChildProcess child" by (simp add: runLoad_fields)
    from inv_entry [OF inv old] have r: "child \<in> running s" "key_of s child = Some k"
      by simp_all
    with fresh have "child \<noteq> ?n" by blast
    with r key_old show ?thesis by (simp add: runLoad_fields)
  qed
  have b: "\<exists>k. key_of ?s' child = Some k \<and> loadProcess ?s' k = ChildProcess child"
    if h: "child \<in> running ?s'" for child
  proof (cases "child = ?n")
    case True
    with key_new show ?thesis by (simp add: runLoad_fields)
  next
    case False
    with h have "child \<in> running s" by (simp add: runLoad_fields)
    from inv_running [OF inv this] obtain k
      where k: "key_of s child = Some k" "loadProcess s k = ChildProcess child"
      by blast
    with idle have "k \<noteq> ?k" by (auto simp: truthy_def)
    with k False key_old show ?thesis by (simp add: runLoad_fields)
  qed
  have c: "child < spawned ?s'" if "child \<in> running ?s'" for child
    using that inv_handle [OF inv, of child] by (auto simp: runLoad_fields)
  have d: "finite (running ?s')"
    using fin by (simp add: runLoad_fields)
  have "length (filter terminal (emitted s)) + card (running s) = spawned s"
    using inv by (rule inv_count)
  then have e: "length (filter terminal (emitted ?s')) + card (running ?s') = spawned ?s'"
    using fresh fin by (simp add: runLoad_fields)
  have f: "loadProcess ?s' k = InheritedMember" if h: "k \<in> set objectPrototypeMembers" for k
  proof -
    from inv_members [OF inv h] have m: "loadProcess s k = InheritedMember" .
    with idle have "k \<noteq> ?k" by (auto simp: truthy_def)
    with m show ?thesis by (simp add: runLoad_fields)
  qed
  from a b c d e f show ?thesis
    by (rule registry_invI)
qed

lemma inv_end:
  assumes inv: "registry_inv s" and run: "child \<in> running s"
    and cl: "closures s child = Some r"
    and lp: "loadProcess s' = (loadProcess s)(req_projectID (run_options r) := Null)"
    and cs: "closures s' = closures s"
    and sp: "spawned s' = spawned s"
    and rn: "running s' = running s - {child}"
    and em: "emitted s' = emitted s @ [e]" and te: "terminal e"
  shows "registry_inv s'"
proof -
  let ?k = "req_projectID (run_options r)"
  have key: "key_of s' c = key_of s c" for c
    by (simp add: key_of_def cs)
  have kc: "key_of s child = Some ?k"
    by (simp add: key_of_def cl)
  have fin: "finite (running s)"
    using inv by (rule inv_finite)
  from inv_running [OF inv run] kc have reg: "loadProcess s ?k = ChildProcess child"
    by auto
  have a: "c \<in> running s' \<and> key_of s' c = Some k"
    if h: "loadProcess s' k = ChildProcess c" for k c
  proof -
    from h lp have nk: "k \<noteq> ?k" and old: "loadProcess s k = ChildProcess c"
      by (auto split: if_splits)
    from inv_entry [OF inv old] have r: "c \<in> running s" "key_of s c = Some k"
      by simp_all
    with kc nk have "c \<noteq> child" by auto
    with r key show ?thesis by (simp add: rn)
  qed
  have b: "\<exists>k. key_of s' c = Some k \<and> loadProcess s' k = ChildProcess c"
    if h: "c \<in> running s'" for c
  proof -
    from h rn have ne: "c \<noteq> child" and old: "c \<in> running s" by auto
    from inv_running [OF inv old] obtain k
      where k: "key_of s c = Some k" "loadProcess s k = ChildProcess c"
      by blast
    with reg ne have "k \<noteq> ?k" by auto
    with k key lp show ?thesis by simp
  qed
  have c: "c < spawned s'" if "c \<in> running s'" for c
    using that inv_handle [OF inv, of c] by (simp add: rn sp)
  have d: "finite (running s')"
    using fin by (simp add: rn)
  have cnt: "length (filter terminal (emitted s)) + card (running s) = spawned s"
    using inv by (rule inv_count)
  have "card (running s) = Suc (card (running s - {child}))"
    using card_Suc_Diff1 [OF fin run] by simp
  with cnt have e: "length (filter terminal (emitted s')) + card (running s') = spawned s'"
    by (simp add: em te rn sp)
  have f: "loadProcess s' k = InheritedMember" if h: "k \<in> set objectPrototypeMembers" for k
  proof -
    from inv_members [OF inv h] have m: "loadProcess s k = InheritedMember" .
    with reg have "k \<noteq> ?k" by auto
    with m lp show ?thesis by simp
  qed
  from a b c d e f show ?thesis
    by (rule registry_invI)
qed

lemma inv_data:
  assumes inv: "registry_inv s"
    and lp: "loadProcess s' = loadProcess s"
    and ky: "\<And>c. key_of s' c = key_of s c"
    and sp: "spawned s' = spawned s"
    and rn: "running s' = running s"
    and em: "emitted s' = emitted s"
  shows "registry_inv s'"
  using inv unfolding registry_inv_def by (simp add: lp ky sp rn em)

lemma inv_deliver:
  assumes inv: "registry_inv s"
  shows "registry_inv (deliver a s)"
proof (cases a)
  case (StartRequest body)
  then show ?thesis
    using inv by (simp add: runload_route_def inv_start)
next
  case (CancelRequest body)
  have "registry_inv (snd (cancelLoad_route body s))"
    by (rule inv_data [OF inv])
      (simp_all add: cancelLoad_route_def key_of_def split: registry_value.splits)
  with CancelRequest show ?thesis by simp
next
  case (StdoutData child data)
  have "registry_inv (on_stdout_data child data s)"
    by (rule inv_data [OF inv]) (simp_all add: on_stdout_data_def key_of_def split: option.splits)
  with StdoutData show ?thesis by simp
next
  case (StderrData child data)
  have "registry_inv (on_stderr_data child data s)"
    by (rule inv_data [OF inv]) (simp_all add: on_stderr_data_def key_of_def split: option.splits)
  with StderrData show ?thesis by simp
next
  case (Exit child code sig)
  show ?thesis
  proof (cases "child \<in> running s")
    case True
    with inv obtain r where cl: "closures s child = Some r"
      by (rule inv_running_closure)
    have "registry_inv ((on_exit child code sig s)\<lparr>running := running s - {child}\<rparr>)"
      by (rule inv_end [OF inv True cl _ _ _ _ _ exit_event_terminal])
        (simp_all add: on_exit_fields [OF cl])
    with Exit True show ?thesis by simp
  next
    case False
    with Exit inv show ?thesis by simp
  qed
next
  case (Error child)
  show ?thesis
  proof (cases "child \<in> running s")
    case True
    with inv obtain r where cl: "closures s child = Some r"
      by (rule inv_running_closure)
    have "registry_inv ((on_error child s)\<lparr>running := running s - {child}\<rparr>)"
      by (rule inv_end [OF inv True cl, where e = "loadrunError (output r) (errOutput r) (req_projectID (run_options r))"])
        (simp_all add: on_error_fields [OF cl])
    with Error True show ?thesis by simp
  next
    case False
    with Error inv show ?thesis by simp
  qed
qed

lemma inv_run_trace: "registry_inv s \<Longrightarrow> registry_inv (run_trace actions s)"
  unfolding run_trace_def
  by (induction actions arbitrary: s) (simp_all add: inv_deliver)

lemma inv_reachable: "registry_inv (run_trace actions initial)"
  by (rule inv_run_trace [OF inv_initial])

lemma inherited_members_stay:
  "k \<in> set objectPrototypeMembers \<Longrightarrow> loadProcess (run_trace actions initial) k = InheritedMember"
  by (rule inv_members [OF inv_reachable])

text \<open>
  Claim C2. When a child exits, the handler emits one event, chosen in this order: the
  signal SIGKILL, which is the signal the cancel route sends, gives \<open>cancelled\<close> with the
  key; otherwise an exit code other than zero gives \<open>loadrunError\<close> with the key and the
  accumulated standard output and standard error; otherwise \<open>completed\<close> with the key and
  the accumulated standard output. The error of a child that could not be started gives
  \<open>loadrunError\<close> with what was captured. Both handlers clear the entry of the key: it
  reads as null afterwards. In every state the event loop reaches, the terminal events
  emitted so far and the children still running add up to the children spawned: a run
  that has ended has emitted one terminal event, and no run has emitted more.
\<close>

theorem terminal_classification:
  "(closures s child = Some run \<longrightarrow>
      emitted (on_exit child code sig s) = emitted s @
        [if sig = Some (SignalNumber 9) \<or> sig = Some (SignalName ''SIGKILL'')
           then cancelled (req_projectID (run_options run))
         else if code \<noteq> Some 0
           then loadrunError (output run) (errOutput run) (req_projectID (run_options run))
         else completed (output run) (req_projectID (run_options run))]
      \<and> emitted (on_error child s) = emitted s @
        [loadrunError (output run) (errOutput run) (req_projectID (run_options run))]
      \<and> loadProcess (on_exit child code sig s) (req_projectID (run_options run)) = Null
      \<and> loadProcess (on_error child s) (req_projectID (run_options run)) = Null)
   \<and> length (filter terminal (emitted (run_trace actions initial)))
       + card (running (run_trace actions initial)) = spawned (run_trace actions initial)"
proof -
  have "length (filter terminal (emitted (run_trace actions initial)))
       + card (running (run_trace actions initial)) = spawned (run_trace actions initial)"
    using inv_reachable by (rule inv_count)
  then show ?thesis
    by (simp add: on_exit_fields on_error_fields)
qed

theorem terminal_classification_witness:
  "closures (on_stderr_data 0 ''boom'' (on_stdout_data 0 ''ok'' (runLoad \<lparr>req_projectID = ''p1'', req_url = Some ''http://x''\<rparr> initial))) 0 =
     Some \<lparr>run_options = \<lparr>req_projectID = ''p1'', req_url = Some ''http://x''\<rparr>, output = ''ok'', errOutput = ''boom''\<rparr>
   \<and> emitted (on_exit 0 None (Some (SignalName ''SIGKILL''))
        (on_stderr_data 0 ''boom'' (on_stdout_data 0 ''ok'' (runLoad \<lparr>req_projectID = ''p1'', req_url = Some ''http://x''\<rparr> initial)))) =
       [starting ''p1'', started ''p1'', cancelled ''p1'']
   \<and> emitted (on_exit 0 (Some 1) None
        (on_stderr_data 0 ''boom'' (on_stdout_data 0 ''ok'' (runLoad \<lparr>req_projectID = ''p1'', req_url = Some ''http://x''\<rparr> initial)))) =
       [starting ''p1'', started ''p1'', loadrunError ''ok'' ''boom'' ''p1'']
   \<and> emitted (on_exit 0 (Some 0) None
        (on_stderr_data 0 ''boom'' (on_stdout_data 0 ''ok'' (runLoad \<lparr>req_projectID = ''p1'', req_url = Some ''http://x''\<rparr> initial)))) =
       [starting ''p1'', started ''p1'', completed ''ok'' ''p1'']
   \<and> emitted (on_error 0
        (on_stderr_data 0 ''boom'' (on_stdout_data 0 ''ok'' (runLoad \<lparr>req_projectID = ''p1'', req_url = Some ''http://x''\<rparr> initial)))) =
       [starting ''p1'', started ''p1'', loadrunError ''ok'' ''boom'' ''p1'']"
proof -
  let ?b = "\<lparr>req_projectID = ''p1'', req_url = Some ''http://x''\<rparr>"
  let ?s = "on_stderr_data 0 ''boom'' (on_stdout_data 0 ''ok'' (runLoad ?b initial))"
  let ?r = "\<lparr>run_options = ?b, output = ''ok'', errOutput = ''boom''\<rparr>"
  have sp: "spawned initial = 0" "emitted initial = []"
    by (simp_all add: initial_def)
  have cl: "closures ?s 0 = Some ?r"
    by (simp add: on_stderr_data_def on_stdout_data_def runLoad_fields sp)
  have em: "emitted ?s = [starting ''p1'', started ''p1'']"
    by (simp add: on_stderr_data_def on_stdout_data_def runLoad_fields sp)
  show ?thesis
    using cl em
      terminal_classification [of ?s 0 ?r None "Some (SignalName ''SIGKILL'')" "[]"]
      terminal_classification [of ?s 0 ?r "Some 1" None "[]"]
      terminal_classification [of ?s 0 ?r "Some 0" None "[]"]
    by simp
qed

text \<open>
  What the start route does right. A start call for a key that reads truthy answers 409
  and leaves the server as it was. In every state the event loop reaches, two running
  children never have the same key, and the registry holds a child for a key exactly
  when that child is running and was started for the key. Two start calls in a row for a
  key that reads falsy, the first with a URL, spawn one child: the first is accepted with
  202, the second answers 409 and changes nothing. On a fresh server every key that does
  not name an inherited member reads falsy.
\<close>

lemma start_refused:
  "truthy (loadProcess s (req_projectID body)) \<Longrightarrow>
   runload_route body s = (statusSend 409 ''A load run is already in progress'', s)"
  by (simp add: runload_route_def)

lemma running_keys_distinct:
  assumes "c1 \<in> running (run_trace actions initial)" and "c2 \<in> running (run_trace actions initial)"
    and "key_of (run_trace actions initial) c1 = key_of (run_trace actions initial) c2"
  shows "c1 = c2"
proof -
  let ?t = "run_trace actions initial"
  have inv: "registry_inv ?t" by (rule inv_reachable)
  from inv_running [OF inv assms(1)] obtain k1
    where k1: "key_of ?t c1 = Some k1" "loadProcess ?t k1 = ChildProcess c1" by blast
  from inv_running [OF inv assms(2)] obtain k2
    where k2: "key_of ?t c2 = Some k2" "loadProcess ?t k2 = ChildProcess c2" by blast
  from assms(3) k1 k2 have "k1 = k2" by simp
  with k1 k2 show ?thesis by simp
qed

lemma registry_holds_running:
  "(loadProcess (run_trace actions initial) k = ChildProcess c) =
   (c \<in> running (run_trace actions initial) \<and> key_of (run_trace actions initial) c = Some k)"
proof
  let ?t = "run_trace actions initial"
  have inv: "registry_inv ?t" by (rule inv_reachable)
  {
    assume "loadProcess ?t k = ChildProcess c"
    then show "c \<in> running ?t \<and> key_of ?t c = Some k"
      by (rule inv_entry [OF inv])
  next
    assume h: "c \<in> running ?t \<and> key_of ?t c = Some k"
    with inv_running [OF inv, of c] obtain k'
      where "key_of ?t c = Some k'" "loadProcess ?t k' = ChildProcess c" by blast
    with h show "loadProcess ?t k = ChildProcess c" by simp
  }
qed

lemma start_twice:
  assumes "\<not> truthy (loadProcess s (req_projectID b1))" and "\<not> falsy (req_url b1)"
    and "req_projectID b2 = req_projectID b1"
  shows "fst (runload_route b1 s) = sendStatus 202"
    and "runload_route b2 (snd (runload_route b1 s)) =
           (statusSend 409 ''A load run is already in progress'', snd (runload_route b1 s))"
    and "spawned (snd (runload_route b2 (snd (runload_route b1 s)))) = Suc (spawned s)"
    and "running (snd (runload_route b2 (snd (runload_route b1 s)))) = insert (spawned s) (running s)"
  using assms by (simp_all add: runload_route_def runLoad_fields truthy_def)

text \<open>
  Claim C4, at two start calls in a row for the key \<open>constructor\<close> on a server that has
  no run. The claim has one child spawned, the first call accepted and the second
  refused. The code refuses both calls with 409 and the message that a load run is
  already in progress, and spawns no child: reading the key gives the member every
  object inherits, which the route takes for a run.
\<close>

theorem start_inherited_key:
  "runload_route \<lparr>req_projectID = ''constructor'', req_url = Some ''http://x''\<rparr> initial =
     (statusSend 409 ''A load run is already in progress'', initial)
   \<and> runload_route \<lparr>req_projectID = ''constructor'', req_url = Some ''http://y''\<rparr>
       (snd (runload_route \<lparr>req_projectID = ''constructor'', req_url = Some ''http://x''\<rparr> initial)) =
     (statusSend 409 ''A load run is already in progress'', initial)
   \<and> spawned initial = 0 \<and> running initial = {} \<and> emitted initial = []"
proof -
  have m: "loadProcess initial ''constructor'' = InheritedMember"
    by (simp add: initial_def objectPrototypeMembers_def)
  have r: "runload_route \<lparr>req_projectID = ''constructor'', req_url = u\<rparr> initial =
     (statusSend 409 ''A load run is already in progress'', initial)" for u
    by (simp add: runload_route_def truthy_def m)
  have "spawned initial = 0 \<and> running initial = {} \<and> emitted initial = []"
    by (simp add: initial_def)
  with r show ?thesis by simp
qed

text \<open>
  Claim C5, at a start call for an idle key without a URL. The route spawns no child,
  registers nothing and emits nothing, as the claim says; but it answers with the status
  500, a server error, where the claim and the comment of the route ("400 if options are
  invalid") have a client error.
\<close>

theorem start_without_url:
  "runload_route \<lparr>req_projectID = ''p1'', req_url = None\<rparr> initial = (sendStatus 500, initial)
   \<and> \<not> clientError (fst (runload_route \<lparr>req_projectID = ''p1'', req_url = None\<rparr> initial))"
proof -
  have "loadProcess initial ''p1'' = Undefined"
    by (simp add: initial_def objectPrototypeMembers_def)
  then show ?thesis
    by (simp add: runload_route_def falsy_def truthy_def)
qed

end
